theory Spec2Isabelle
  imports Main "HOL-Library.Word"
begin

section \<open>The standard-library functions the adapter calls\<close>

text \<open>
  The adapter builds physical object names with Go's \<^verbatim>\<open>path.Join\<close> and takes the
  configured prefix off again with \<^verbatim>\<open>strings.CutPrefix\<close>. Both belong to the Go
  standard library; they are transcribed here from the library's sources. A Go string is
  a byte sequence, hence a \<^typ>\<open>string\<close>.
\<close>

type_synonym bytes = "8 word list"

subsection \<open>Package strings\<close>

definition strings_HasPrefix :: "string \<Rightarrow> string \<Rightarrow> bool" where
  "strings_HasPrefix s prefix = (length prefix \<le> length s \<and> take (length prefix) s = prefix)"

definition strings_HasSuffix :: "string \<Rightarrow> string \<Rightarrow> bool" where
  "strings_HasSuffix s suffix =
     (length suffix \<le> length s \<and> drop (length s - length suffix) s = suffix)"

definition strings_CutPrefix :: "string \<Rightarrow> string \<Rightarrow> string \<times> bool" where
  "strings_CutPrefix s prefix =
     (if \<not> strings_HasPrefix s prefix then (s, False) else (drop (length prefix) s, True))"

subsection \<open>Package path\<close>

text \<open>
  \<^verbatim>\<open>path.Clean\<close> reads the path at index \<open>r\<close> and writes to a buffer of which
  the first \<open>w\<close> bytes count. In the model the unread rest of the path is a list, the
  buffer is the list \<open>out\<close> of its first \<open>w\<close> bytes, and \<open>dotdot\<close> is the index
  in \<open>out\<close> where backtracking for a \<^verbatim>\<open>..\<close> element must stop.

  \<open>backtrack out dotdot w\<close> is the inner loop
  \<^verbatim>\<open>for out.w > dotdot && out.index(out.w) != '/' { out.w-- }\<close>, entered after
  the first \<^verbatim>\<open>out.w--\<close>; it is only called with \<open>w < length out\<close>.
\<close>

fun backtrack :: "string \<Rightarrow> nat \<Rightarrow> nat \<Rightarrow> nat" where
  "backtrack out dotdot 0 = 0"
| "backtrack out dotdot (Suc w) =
     (if dotdot < Suc w \<and> out ! Suc w \<noteq> CHR ''/'' then backtrack out dotdot w else Suc w)"

text \<open>
  One equation per state of the main loop \<^verbatim>\<open>for r < n\<close>: the path is used up, or
  its next byte \<open>c\<close> selects one of the four cases of the \<^verbatim>\<open>switch\<close>, tried in
  the order of the source. In the third case \<open>rest\<close> is not empty, because the second
  case did not apply.
\<close>

function clean_loop :: "bool \<Rightarrow> string \<Rightarrow> string \<Rightarrow> nat \<Rightarrow> string" where
  "clean_loop rooted [] out dotdot = out"
| "clean_loop rooted (c # rest) out dotdot =
     (if c = CHR ''/'' then clean_loop rooted rest out dotdot
      else if c = CHR ''.'' \<and> (rest = [] \<or> hd rest = CHR ''/'') then
        clean_loop rooted rest out dotdot
      else if c = CHR ''.'' \<and> rest \<noteq> [] \<and> hd rest = CHR ''.''
              \<and> (tl rest = [] \<or> hd (tl rest) = CHR ''/'') then
        (if dotdot < length out then
           clean_loop rooted (tl rest)
             (take (backtrack out dotdot (length out - 1)) out) dotdot
         else if \<not> rooted then
           (let out' = (if 0 < length out then out @ ''/'' else out) @ ''..''
            in clean_loop rooted (tl rest) out' (length out'))
         else clean_loop rooted (tl rest) out dotdot)
      else
        (let out' = (if rooted \<and> length out \<noteq> 1 \<or> \<not> rooted \<and> length out \<noteq> 0
                     then out @ ''/'' else out)
         in clean_loop rooted (dropWhile (\<lambda>x. x \<noteq> CHR ''/'') (c # rest))
              (out' @ takeWhile (\<lambda>x. x \<noteq> CHR ''/'') (c # rest)) dotdot))"
  by pat_completeness auto
termination
proof (relation "measure (\<lambda>(rooted, p, out, dotdot). length p)")
  fix c :: char and rest :: string
  assume "c \<noteq> CHR ''/''"
  have "length (dropWhile (\<lambda>x. x \<noteq> CHR ''/'') rest) \<le> length rest"
    by (rule length_dropWhile_le)
  with \<open>c \<noteq> CHR ''/''\<close>
  show "\<And>rooted out dotdot x.
          ((rooted, dropWhile (\<lambda>x. x \<noteq> CHR ''/'') (c # rest),
            x @ takeWhile (\<lambda>x. x \<noteq> CHR ''/'') (c # rest), dotdot),
           (rooted, c # rest, out, dotdot))
          \<in> measure (\<lambda>(rooted, p, out, dotdot). length p)"
    by simp
qed auto

definition path_Clean :: "string \<Rightarrow> string" where
  "path_Clean p =
     (if p = [] then ''.''
      else (let rooted = (hd p = CHR ''/'');
                out = (if rooted then clean_loop True (tl p) ''/'' 1
                       else clean_loop False p [] 0)
            in if length out = 0 then ''.'' else out))"

text \<open>
  \<^verbatim>\<open>path.Join\<close> skips the empty elements in front, puts a slash between the
  others and cleans the result; it returns the empty string when every element is empty.
\<close>

fun join_buf :: "string \<Rightarrow> string list \<Rightarrow> string" where
  "join_buf buf [] = buf"
| "join_buf buf (e # elem) =
     (if 0 < length buf \<or> e \<noteq> [] then
        join_buf ((if 0 < length buf then buf @ ''/'' else buf) @ e) elem
      else join_buf buf elem)"

definition path_Join :: "string list \<Rightarrow> string" where
  "path_Join elem =
     (if sum_list (map length elem) = 0 then [] else path_Clean (join_buf [] elem))"

section \<open>Data model\<close>

text \<open>
  The configuration fields of the \<^verbatim>\<open>S3\<close> struct. Its two handles, the logger and
  the client, are not data: the client is the parameter \<open>c\<close> of every operation below,
  and the logger's debug output is left out.
\<close>

record S3 =
  Host :: string
  Bucket :: string
  AccessID :: string
  SecretKey :: string
  Prefix :: string
  Insecure :: bool
  UseIamProvider :: bool

text \<open>
  Go's \<^verbatim>\<open>error\<close> values: the sentinel \<^verbatim>\<open>fs.ErrNotExist\<close> that \<^verbatim>\<open>Load\<close>
  returns, and the errors the object-store client produces, told apart by their message.
  \<open>None\<close> of type \<open>error option\<close> is \<^verbatim>\<open>nil\<close>.
\<close>

datatype error = ErrNotExist | ClientError string

text \<open>
  \<^verbatim>\<open>minio.ObjectInfo\<close>, with the fields the adapter reads and the field \<^verbatim>\<open>Err\<close>
  in which a listing reports its failure; \<^verbatim>\<open>certmagic.KeyInfo\<close>. A time is the
  distance from Go's zero time, a size is an \<^verbatim>\<open>int64\<close>.
\<close>

record ObjectInfo =
  oi_Key :: string
  oi_LastModified :: int
  oi_Size :: "64 word"
  oi_Err :: "error option"

record KeyInfo =
  ki_Key :: string
  ki_Modified :: int
  ki_Size :: "64 word"
  ki_IsTerminal :: bool

definition KeyInfo_zero :: KeyInfo where
  "KeyInfo_zero = \<lparr>ki_Key = [], ki_Modified = 0, ki_Size = 0, ki_IsTerminal = False\<rparr>"

text \<open>
  The \<^verbatim>\<open>*minio.Object\<close> that \<^verbatim>\<open>GetObject\<close> returns is a reader; what matters of it
  is what reading it to the end yields: the bytes delivered and the error that ended the
  stream (\<open>None\<close> at a regular end of file). \<^verbatim>\<open>io.ReadAll\<close> returns exactly this pair.
\<close>

type_synonym Object = "bytes \<times> error option"

definition io_ReadAll :: "Object \<Rightarrow> bytes \<times> error option" where
  "io_ReadAll object = object"

section \<open>The object-store client\<close>

text \<open>
  The five methods of \<^verbatim>\<open>*minio.Client\<close> that the adapter calls, as functions on the
  state \<open>'s\<close> of the object store: each takes the context, the bucket and its own
  arguments, and returns its Go results with the state after the call. The client library
  is not part of the repository, so the operations are a parameter of the model.

  \<^verbatim>\<open>ListObjects\<close> returns a channel. Its result here is the number of entries that
  already wait in the channel when the adapter evaluates \<^verbatim>\<open>len(objects)\<close>, and the
  sequence of all entries received until the channel is closed.
\<close>

record ('s, 'x) Client =
  PutObject :: "'x \<Rightarrow> string \<Rightarrow> string \<Rightarrow> bytes \<Rightarrow> 64 word \<Rightarrow> 's \<Rightarrow> error option \<times> 's"
  GetObject :: "'x \<Rightarrow> string \<Rightarrow> string \<Rightarrow> 's \<Rightarrow> (error + Object) \<times> 's"
  StatObject :: "'x \<Rightarrow> string \<Rightarrow> string \<Rightarrow> 's \<Rightarrow> (ObjectInfo \<times> error option) \<times> 's"
  RemoveObject :: "'x \<Rightarrow> string \<Rightarrow> string \<Rightarrow> 's \<Rightarrow> error option \<times> 's"
  ListObjects :: "'x \<Rightarrow> string \<Rightarrow> string \<Rightarrow> bool \<Rightarrow> 's \<Rightarrow> (nat \<times> ObjectInfo list) \<times> 's"

text \<open>
  The adapter runs in a world made of the object store and the log of the client calls
  issued so far; a call through the client handle appends its entry.
\<close>

datatype call =
  PutObjectCall string string bytes "64 word"
| GetObjectCall string string
| StatObjectCall string string
| RemoveObjectCall string string
| ListObjectsCall string string bool

record 's world =
  store :: 's
  calls :: "call list"

definition client_PutObject ::
  "('s, 'x) Client \<Rightarrow> 'x \<Rightarrow> string \<Rightarrow> string \<Rightarrow> bytes \<Rightarrow> 64 word \<Rightarrow> 's world
     \<Rightarrow> error option \<times> 's world" where
  "client_PutObject c ctx bucket name data objectSize w =
     (let (err, s') = PutObject c ctx bucket name data objectSize (store w)
      in (err, \<lparr>store = s', calls = calls w @ [PutObjectCall bucket name data objectSize]\<rparr>))"

definition client_GetObject ::
  "('s, 'x) Client \<Rightarrow> 'x \<Rightarrow> string \<Rightarrow> string \<Rightarrow> 's world \<Rightarrow> (error + Object) \<times> 's world" where
  "client_GetObject c ctx bucket name w =
     (let (r, s') = GetObject c ctx bucket name (store w)
      in (r, \<lparr>store = s', calls = calls w @ [GetObjectCall bucket name]\<rparr>))"

definition client_StatObject ::
  "('s, 'x) Client \<Rightarrow> 'x \<Rightarrow> string \<Rightarrow> string \<Rightarrow> 's world
     \<Rightarrow> (ObjectInfo \<times> error option) \<times> 's world" where
  "client_StatObject c ctx bucket name w =
     (let (r, s') = StatObject c ctx bucket name (store w)
      in (r, \<lparr>store = s', calls = calls w @ [StatObjectCall bucket name]\<rparr>))"

definition client_RemoveObject ::
  "('s, 'x) Client \<Rightarrow> 'x \<Rightarrow> string \<Rightarrow> string \<Rightarrow> 's world \<Rightarrow> error option \<times> 's world" where
  "client_RemoveObject c ctx bucket name w =
     (let (err, s') = RemoveObject c ctx bucket name (store w)
      in (err, \<lparr>store = s', calls = calls w @ [RemoveObjectCall bucket name]\<rparr>))"

definition client_ListObjects ::
  "('s, 'x) Client \<Rightarrow> 'x \<Rightarrow> string \<Rightarrow> string \<Rightarrow> bool \<Rightarrow> 's world
     \<Rightarrow> (nat \<times> ObjectInfo list) \<times> 's world" where
  "client_ListObjects c ctx bucket prefix recursive w =
     (let (r, s') = ListObjects c ctx bucket prefix recursive (store w)
      in (r, \<lparr>store = s', calls = calls w @ [ListObjectsCall bucket prefix recursive]\<rparr>))"

section \<open>The storage adapter\<close>

definition KeyPrefix :: "S3 \<Rightarrow> string \<Rightarrow> string" where
  "KeyPrefix s3 key = path_Join [Prefix s3, key]"

definition CutKeyPrefix :: "S3 \<Rightarrow> string \<Rightarrow> string" where
  "CutKeyPrefix s3 key = (let (cutted, _) = strings_CutPrefix key (Prefix s3) in cutted)"

definition Lock :: "S3 \<Rightarrow> 'x \<Rightarrow> string \<Rightarrow> 's world \<Rightarrow> error option \<times> 's world" where
  "Lock s3 ctx key w = (None, w)"

definition Unlock :: "S3 \<Rightarrow> 'x \<Rightarrow> string \<Rightarrow> 's world \<Rightarrow> error option \<times> 's world" where
  "Unlock s3 ctx key w = (None, w)"

definition Store ::
  "('s, 'x) Client \<Rightarrow> S3 \<Rightarrow> 'x \<Rightarrow> string \<Rightarrow> bytes \<Rightarrow> 's world \<Rightarrow> error option \<times> 's world" where
  "Store c s3 ctx key val w =
     (let key' = KeyPrefix s3 key;
          len = (of_nat (length val) :: 64 word)
      in client_PutObject c ctx (Bucket s3) key' val len w)"

definition Exists :: "('s, 'x) Client \<Rightarrow> S3 \<Rightarrow> 'x \<Rightarrow> string \<Rightarrow> 's world \<Rightarrow> bool \<times> 's world" where
  "Exists c s3 ctx key w =
     (let key' = KeyPrefix s3 key;
          ((_, err), w') = client_StatObject c ctx (Bucket s3) key' w;
          exists = (err = None)
      in (exists, w'))"

definition Load ::
  "('s, 'x) Client \<Rightarrow> S3 \<Rightarrow> 'x \<Rightarrow> string \<Rightarrow> 's world \<Rightarrow> (bytes \<times> error option) \<times> 's world" where
  "Load c s3 ctx key w =
     (let (exists, w1) = Exists c s3 ctx key w
      in if \<not> exists then (([], Some ErrNotExist), w1)
         else (let key' = KeyPrefix s3 key;
                   (r, w2) = client_GetObject c ctx (Bucket s3) key' w1
               in case r of
                    Inl err \<Rightarrow> (([], Some err), w2)
                  | Inr object \<Rightarrow> (io_ReadAll object, w2)))"

definition Delete ::
  "('s, 'x) Client \<Rightarrow> S3 \<Rightarrow> 'x \<Rightarrow> string \<Rightarrow> 's world \<Rightarrow> error option \<times> 's world" where
  "Delete c s3 ctx key w =
     (let key' = KeyPrefix s3 key
      in client_RemoveObject c ctx (Bucket s3) key' w)"

text \<open>
  \<^verbatim>\<open>List\<close> starts from \<^verbatim>\<open>make([]string, len(objects))\<close>, a slice of that many
  empty strings, and appends one key for every entry received from the channel, whatever
  the entry's \<^verbatim>\<open>Err\<close> field holds. It returns \<^verbatim>\<open>nil\<close> as its error.
\<close>

fun List_loop :: "S3 \<Rightarrow> string list \<Rightarrow> ObjectInfo list \<Rightarrow> string list" where
  "List_loop s3 keys [] = keys"
| "List_loop s3 keys (object # objects) =
     List_loop s3 (keys @ [CutKeyPrefix s3 (oi_Key object)]) objects"

definition List ::
  "('s, 'x) Client \<Rightarrow> S3 \<Rightarrow> 'x \<Rightarrow> string \<Rightarrow> bool \<Rightarrow> 's world
     \<Rightarrow> (string list \<times> error option) \<times> 's world" where
  "List c s3 ctx prefix recursive w =
     (let ((n, objects), w') =
            client_ListObjects c ctx (Bucket s3) (KeyPrefix s3 prefix) recursive w;
          keys = replicate n [];
          keys' = List_loop s3 keys objects
      in ((keys', None), w'))"

definition Stat ::
  "('s, 'x) Client \<Rightarrow> S3 \<Rightarrow> 'x \<Rightarrow> string \<Rightarrow> 's world \<Rightarrow> (KeyInfo \<times> error option) \<times> 's world" where
  "Stat c s3 ctx key w =
     (let key' = KeyPrefix s3 key;
          ((object, err), w') = client_StatObject c ctx (Bucket s3) key' w
      in if err \<noteq> None then ((KeyInfo_zero, None), w')
         else ((\<lparr>ki_Key = oi_Key object,
                  ki_Modified = oi_LastModified object,
                  ki_Size = oi_Size object,
                  ki_IsTerminal = strings_HasSuffix (oi_Key object) ''/''\<rparr>, err), w'))"

section \<open>Runs of operations\<close>

text \<open>
  The calls a host makes to the adapter one after the other. \<open>apply_ops\<close> runs them
  in order on a world and drops their results; \<open>written_key\<close> is the logical key an
  operation writes to, if it writes at all.
\<close>

datatype 'x op =
  OpStore 'x string bytes
| OpLoad 'x string
| OpDelete 'x string
| OpExists 'x string
| OpList 'x string bool
| OpStat 'x string
| OpLock 'x string
| OpUnlock 'x string

fun apply_op :: "('s, 'x) Client \<Rightarrow> S3 \<Rightarrow> 'x op \<Rightarrow> 's world \<Rightarrow> 's world" where
  "apply_op c s3 (OpStore ctx key val) w = snd (Store c s3 ctx key val w)"
| "apply_op c s3 (OpLoad ctx key) w = snd (Load c s3 ctx key w)"
| "apply_op c s3 (OpDelete ctx key) w = snd (Delete c s3 ctx key w)"
| "apply_op c s3 (OpExists ctx key) w = snd (Exists c s3 ctx key w)"
| "apply_op c s3 (OpList ctx prefix recursive) w = snd (List c s3 ctx prefix recursive w)"
| "apply_op c s3 (OpStat ctx key) w = snd (Stat c s3 ctx key w)"
| "apply_op c s3 (OpLock ctx key) w = snd (Lock s3 ctx key w)"
| "apply_op c s3 (OpUnlock ctx key) w = snd (Unlock s3 ctx key w)"

fun apply_ops :: "('s, 'x) Client \<Rightarrow> S3 \<Rightarrow> 'x op list \<Rightarrow> 's world \<Rightarrow> 's world" where
  "apply_ops c s3 [] w = w"
| "apply_ops c s3 (op # ops) w = apply_ops c s3 ops (apply_op c s3 op w)"

fun written_key :: "'x op \<Rightarrow> string option" where
  "written_key (OpStore ctx key val) = Some key"
| "written_key (OpDelete ctx key) = Some key"
| "written_key (OpLoad ctx key) = None"
| "written_key (OpExists ctx key) = None"
| "written_key (OpList ctx prefix recursive) = None"
| "written_key (OpStat ctx key) = None"
| "written_key (OpLock ctx key) = None"
| "written_key (OpUnlock ctx key) = None"

text \<open>
  A run leaves a key undisturbed when none of its operations stores or deletes a key
  with the same prefixed key. \<open>clean_others\<close> is the condition on the logical keys
  alone: every key the run stores or deletes is clean and is another key.
\<close>

definition undisturbed :: "S3 \<Rightarrow> string \<Rightarrow> 'x op list \<Rightarrow> bool" where
  "undisturbed s3 key ops =
     list_all (\<lambda>op. case written_key op of
                       None \<Rightarrow> True
                     | Some key' \<Rightarrow> KeyPrefix s3 key' \<noteq> KeyPrefix s3 key) ops"

section \<open>Clean paths\<close>

text \<open>
  The elements of a path are the pieces between its slashes. A path is clean when none
  of its elements is empty, \<^verbatim>\<open>.\<close> or \<^verbatim>\<open>..\<close>: it has no slash in front or at the
  end, no doubled slash, and \<^verbatim>\<open>path.Clean\<close> has nothing to change in it. The keys
  that certmagic builds (\<^verbatim>\<open>example.com/cert.pem\<close>) are clean.
\<close>

fun elements :: "string \<Rightarrow> string list" where
  "elements [] = [[]]"
| "elements (c # s) =
     (if c = CHR ''/'' then [] # elements s
      else (case elements s of [] \<Rightarrow> [[c]] | e # es \<Rightarrow> (c # e) # es))"

fun join_elements :: "string list \<Rightarrow> string" where
  "join_elements [] = []"
| "join_elements [e] = e"
| "join_elements (e # e' # es) = e @ ''/'' @ join_elements (e' # es)"

definition plain :: "string \<Rightarrow> bool" where
  "plain e = (e \<noteq> [] \<and> CHR ''/'' \<notin> set e \<and> e \<noteq> ''.'' \<and> e \<noteq> ''..'')"

definition clean :: "string \<Rightarrow> bool" where
  "clean p = list_all (\<lambda>e. e \<noteq> [] \<and> e \<noteq> ''.'' \<and> e \<noteq> ''..'') (elements p)"

definition clean_others :: "string \<Rightarrow> 'x op list \<Rightarrow> bool" where
  "clean_others key ops =
     list_all (\<lambda>op. case written_key op of
                       None \<Rightarrow> True
                     | Some key' \<Rightarrow> clean key' \<and> key' \<noteq> key) ops"

section \<open>What is assumed of an object store\<close>

text \<open>
  Three properties of a client, each used as a hypothesis where a claim depends on the
  object store behind the adapter: reading calls leave the store as it is; an object
  written without error can be read back; and the client never produces the sentinel
  \<^verbatim>\<open>fs.ErrNotExist\<close> itself, neither from \<^verbatim>\<open>GetObject\<close> nor at the end of the
  stream it returns.
\<close>

definition reads_pure :: "('s, 'x) Client \<Rightarrow> bool" where
  "reads_pure c =
     (\<forall>ctx bucket name recursive s.
        snd (GetObject c ctx bucket name s) = s \<and>
        snd (StatObject c ctx bucket name s) = s \<and>
        snd (ListObjects c ctx bucket name recursive s) = s)"

definition read_after_write :: "('s, 'x) Client \<Rightarrow> bool" where
  "read_after_write c =
     (\<forall>ctx ctx' bucket name data s s'.
        PutObject c ctx bucket name data (of_nat (length data)) s = (None, s') \<longrightarrow>
          snd (fst (StatObject c ctx' bucket name s')) = None \<and>
          fst (GetObject c ctx' bucket name s') = Inr (data, None))"

definition client_errors_generic :: "('s, 'x) Client \<Rightarrow> bool" where
  "client_errors_generic c =
     (\<forall>ctx bucket name s.
        case fst (GetObject c ctx bucket name s) of
          Inl err \<Rightarrow> err \<noteq> ErrNotExist
        | Inr (data, rerr) \<Rightarrow> rerr \<noteq> Some ErrNotExist)"

text \<open>
  \<open>object_is\<close>: the store holds the given bytes under the name, so that the metadata
  call succeeds and the object reads back in full. \<open>writes_frame\<close>: writing or removing
  an object of another name does not change that.
\<close>

definition object_is :: "('s, 'x) Client \<Rightarrow> string \<Rightarrow> string \<Rightarrow> bytes \<Rightarrow> 's \<Rightarrow> bool" where
  "object_is c bucket name data s =
     (\<forall>ctx. snd (fst (StatObject c ctx bucket name s)) = None \<and>
            fst (GetObject c ctx bucket name s) = Inr (data, None))"

definition writes_frame :: "('s, 'x) Client \<Rightarrow> bool" where
  "writes_frame c =
     (\<forall>ctx bucket name name' data data' objectSize s.
        name' \<noteq> name \<and> object_is c bucket name data s \<longrightarrow>
          object_is c bucket name data (snd (PutObject c ctx bucket name' data' objectSize s)) \<and>
          object_is c bucket name data (snd (RemoveObject c ctx bucket name' s)))"

definition is_read :: "call \<Rightarrow> bool" where
  "is_read cl = (case cl of
       PutObjectCall _ _ _ _ \<Rightarrow> False
     | RemoveObjectCall _ _ \<Rightarrow> False
     | _ \<Rightarrow> True)"

section \<open>A reference object store\<close>

text \<open>
  An object store in memory, to run the adapter on concrete inputs: the objects with
  their bucket, name, content and modification time, a clock, and a switch that makes
  every call fail as an unreachable server does. Names without content are refused, a
  missing object is an error of \<^verbatim>\<open>StatObject\<close> and of reading, removing is
  idempotent, and a listing without \<^verbatim>\<open>Recursive\<close> folds the names at the next slash
  after the prefix. A failing listing sends one entry that carries the error. The order
  of a listing is the order of insertion, latest first.
\<close>

record mem =
  objects :: "((string \<times> string) \<times> bytes \<times> int) list"
  clock :: int
  offline :: bool

definition unreachable :: error where
  "unreachable = ClientError ''connection refused''"

definition NoSuchKey :: error where
  "NoSuchKey = ClientError ''The specified key does not exist.''"

definition ObjectInfo_zero :: ObjectInfo where
  "ObjectInfo_zero = \<lparr>oi_Key = [], oi_LastModified = 0, oi_Size = 0, oi_Err = None\<rparr>"

definition mem_PutObject ::
  "'x \<Rightarrow> string \<Rightarrow> string \<Rightarrow> bytes \<Rightarrow> 64 word \<Rightarrow> mem \<Rightarrow> error option \<times> mem" where
  "mem_PutObject ctx bucket name data objectSize m =
     (if offline m then (Some unreachable, m)
      else if name = [] then (Some (ClientError ''Object name cannot be empty''), m)
      else (None, m\<lparr>objects := ((bucket, name), data, clock m)
                        # filter (\<lambda>ob. fst ob \<noteq> (bucket, name)) (objects m),
                      clock := clock m + 1\<rparr>))"

definition mem_GetObject :: "'x \<Rightarrow> string \<Rightarrow> string \<Rightarrow> mem \<Rightarrow> (error + Object) \<times> mem" where
  "mem_GetObject ctx bucket name m =
     (if name = [] then (Inl (ClientError ''Object name cannot be empty''), m)
      else if offline m then (Inr ([], Some unreachable), m)
      else (case map_of (objects m) (bucket, name) of
              None \<Rightarrow> (Inr ([], Some NoSuchKey), m)
            | Some (data, t) \<Rightarrow> (Inr (data, None), m)))"

definition mem_StatObject ::
  "'x \<Rightarrow> string \<Rightarrow> string \<Rightarrow> mem \<Rightarrow> (ObjectInfo \<times> error option) \<times> mem" where
  "mem_StatObject ctx bucket name m =
     (if offline m then ((ObjectInfo_zero, Some unreachable), m)
      else (case map_of (objects m) (bucket, name) of
              None \<Rightarrow> ((ObjectInfo_zero, Some NoSuchKey), m)
            | Some (data, t) \<Rightarrow>
                ((\<lparr>oi_Key = name, oi_LastModified = t, oi_Size = of_nat (length data),
                   oi_Err = None\<rparr>, None), m)))"

definition mem_RemoveObject :: "'x \<Rightarrow> string \<Rightarrow> string \<Rightarrow> mem \<Rightarrow> error option \<times> mem" where
  "mem_RemoveObject ctx bucket name m =
     (if name = [] then (Some (ClientError ''Object name cannot be empty''), m)
      else if offline m then (Some unreachable, m)
      else (None, m\<lparr>objects := filter (\<lambda>ob. fst ob \<noteq> (bucket, name)) (objects m)\<rparr>))"

definition mem_entry :: "string \<Rightarrow> bool \<Rightarrow> (string \<times> string) \<times> bytes \<times> int \<Rightarrow> ObjectInfo" where
  "mem_entry prefix recursive ob =
     (let name = snd (fst ob); rest = drop (length prefix) name
      in if \<not> recursive \<and> CHR ''/'' \<in> set rest then
           ObjectInfo_zero\<lparr>oi_Key := prefix @ takeWhile (\<lambda>x. x \<noteq> CHR ''/'') rest @ ''/''\<rparr>
         else \<lparr>oi_Key = name, oi_LastModified = snd (snd ob),
                oi_Size = of_nat (length (fst (snd ob))), oi_Err = None\<rparr>)"

definition mem_ListObjects ::
  "'x \<Rightarrow> string \<Rightarrow> string \<Rightarrow> bool \<Rightarrow> mem \<Rightarrow> (nat \<times> ObjectInfo list) \<times> mem" where
  "mem_ListObjects ctx bucket prefix recursive m =
     (if offline m then ((0, [ObjectInfo_zero\<lparr>oi_Err := Some unreachable\<rparr>]), m)
      else ((0, remdups (map (mem_entry prefix recursive)
                   (filter (\<lambda>ob. fst (fst ob) = bucket \<and> strings_HasPrefix (snd (fst ob)) prefix)
                      (objects m)))), m))"

definition mem_client :: "(mem, 'x) Client" where
  "mem_client = \<lparr>PutObject = mem_PutObject, GetObject = mem_GetObject,
     StatObject = mem_StatObject, RemoveObject = mem_RemoveObject,
     ListObjects = mem_ListObjects\<rparr>"

text \<open>
  Two configurations, the one of the README with the prefix \<^verbatim>\<open>ssl\<close> and one without
  a prefix, and three worlds: an empty store, a store that cannot be reached, and the
  store after the adapter has stored three bytes under the key \<^verbatim>\<open>a\<close>.
\<close>

definition s3_ssl :: S3 where
  "s3_ssl = \<lparr>Host = ''s3.example.com'', Bucket = ''certs'', AccessID = ''id'',
     SecretKey = ''secret'', Prefix = ''ssl'', Insecure = False, UseIamProvider = False\<rparr>"

definition s3_bare :: S3 where
  "s3_bare = s3_ssl\<lparr>Prefix := []\<rparr>"

definition world_empty :: "mem world" where
  "world_empty = \<lparr>store = \<lparr>objects = [], clock = 0, offline = False\<rparr>, calls = []\<rparr>"

definition world_offline :: "mem world" where
  "world_offline = \<lparr>store = \<lparr>objects = [], clock = 0, offline = True\<rparr>, calls = []\<rparr>"

definition world_a :: "mem world" where
  "world_a = snd (Store mem_client s3_ssl () ''a'' [1, 2, 3] world_empty)"

text \<open>A run that reads, locks, and writes to keys other than \<^verbatim>\<open>a\<close>.\<close>

definition run_others :: "unit op list" where
  "run_others =
     [OpList () [] True, OpLoad () ''a'', OpStat () ''a'', OpExists () ''b'',
      OpLock () ''a'', OpUnlock () ''a'', OpStore () ''b'' [9], OpDelete () ''c'',
      OpStore () ''a/b'' [7], OpDelete () ''b'']"

section \<open>Clean paths pass through path.Clean unchanged\<close>

lemma elements_not_Nil: "elements s \<noteq> []"
  by (induction s) (auto split: list.splits)

lemma join_elements_elements: "join_elements (elements s) = s"
proof (induction s)
  case Nil
  show ?case by simp
next
  case (Cons c s)
  obtain e es where "elements s = e # es"
    using elements_not_Nil [of s] by (cases "elements s") auto
  with Cons show ?case by (cases es) auto
qed

lemma elements_no_slash: "e \<in> set (elements s) \<Longrightarrow> CHR ''/'' \<notin> set e"
  by (induction s arbitrary: e) (auto split: if_splits list.splits)

lemma clean_plain: "clean p \<Longrightarrow> list_all plain (elements p)"
  by (auto simp: clean_def plain_def list_all_iff dest: elements_no_slash)

lemma takeWhile_elem:
  "CHR ''/'' \<notin> set e \<Longrightarrow> rest = [] \<or> hd rest = CHR ''/'' \<Longrightarrow>
   takeWhile (\<lambda>x. x \<noteq> CHR ''/'') (e @ rest) = e"
  by (induction e) (auto, cases rest, auto)

lemma dropWhile_elem:
  "CHR ''/'' \<notin> set e \<Longrightarrow> rest = [] \<or> hd rest = CHR ''/'' \<Longrightarrow>
   dropWhile (\<lambda>x. x \<noteq> CHR ''/'') (e @ rest) = rest"
  by (induction e) (auto, cases rest, auto)

text \<open>
  One turn of the loop on a plain element: none of the first three cases of the switch
  applies, so the element is copied to the buffer, after a slash unless the buffer is
  empty.
\<close>

lemma clean_loop_elem:
  assumes "plain e" and "rest = [] \<or> hd rest = CHR ''/''"
  shows "clean_loop False (e @ rest) out 0 =
         clean_loop False rest ((if out = [] then out else out @ ''/'') @ e) 0"
proof -
  from assms(1) obtain c e' where e: "e = c # e'" and c: "(c = CHR ''/'') = False"
    and e': "CHR ''/'' \<notin> set e'"
    by (cases e) (auto simp: plain_def)
  have tw: "takeWhile (\<lambda>x. x \<noteq> CHR ''/'') (c # e' @ rest) = c # e'"
    using assms takeWhile_elem [of e rest] by (simp add: plain_def e)
  have dw: "dropWhile (\<lambda>x. x \<noteq> CHR ''/'') (c # e' @ rest) = rest"
    using assms dropWhile_elem [of e rest] by (simp add: plain_def e)
  have dot: "(c = CHR ''.'' \<and> (e' @ rest = [] \<or> hd (e' @ rest) = CHR ''/'')) = False"
    using assms e e' by (cases e') (auto simp: plain_def)
  have dotdot: "(c = CHR ''.'' \<and> e' @ rest \<noteq> [] \<and> hd (e' @ rest) = CHR ''.''
                  \<and> (tl (e' @ rest) = [] \<or> hd (tl (e' @ rest)) = CHR ''/'')) = False"
  proof (cases e')
    case Nil
    with assms(2) show ?thesis by auto
  next
    case (Cons d e'')
    with assms e e' show ?thesis by (cases e'') (auto simp: plain_def)
  qed
  have sep: "(if False \<and> length out \<noteq> 1 \<or> \<not> False \<and> length out \<noteq> 0 then out @ ''/'' else out)
             = (if out = [] then out else out @ ''/'')"
    by simp
  have "clean_loop False (c # e' @ rest) out 0 =
        clean_loop False rest ((if out = [] then out else out @ ''/'') @ c # e') 0"
    by (subst clean_loop.simps(2)) (simp only: c dot dotdot if_False Let_def tw dw sep)
  with e show ?thesis by simp
qed

lemma clean_loop_plain:
  "list_all plain es \<Longrightarrow> es \<noteq> [] \<Longrightarrow>
   clean_loop False (join_elements es) out 0 =
     (if out = [] then join_elements es else out @ ''/'' @ join_elements es)"
proof (induction es arbitrary: out rule: join_elements.induct)
  case 1
  then show ?case by simp
next
  case (2 e)
  then have "plain e" by simp
  from clean_loop_elem [OF this, of "[]" out] show ?case by simp
next
  case (3 e e' es)
  then have p: "plain e" and ne: "e \<noteq> []" by (simp_all add: plain_def)
  let ?out = "(if out = [] then out else out @ ''/'') @ e"
  have "clean_loop False (join_elements (e # e' # es)) out 0 =
        clean_loop False (CHR ''/'' # join_elements (e' # es)) ?out 0"
    using clean_loop_elem [OF p, of "CHR ''/'' # join_elements (e' # es)" out] by simp
  also have "\<dots> = clean_loop False (join_elements (e' # es)) ?out 0"
    by simp
  also have "\<dots> = ?out @ ''/'' @ join_elements (e' # es)"
    using "3.IH" [of ?out] "3.prems" ne by simp
  finally show ?case by simp
qed

lemma path_Clean_clean: "clean p \<Longrightarrow> path_Clean p = p"
proof -
  assume "clean p"
  then have pl: "list_all plain (elements p)" by (rule clean_plain)
  obtain e es where sp: "elements p = e # es"
    using elements_not_Nil [of p] by (cases "elements p") auto
  with pl have "plain e" by simp
  then have "e \<noteq> []" "hd e \<noteq> CHR ''/''" by (cases e; auto simp: plain_def)+
  moreover have "p = join_elements (e # es)" using join_elements_elements [of p] sp by simp
  ultimately have ne: "p \<noteq> []" and hd: "hd p \<noteq> CHR ''/''" by (cases es; auto)+
  have "clean_loop False p [] 0 = p"
    using clean_loop_plain [OF pl elements_not_Nil, of "[]"] join_elements_elements [of p]
    by simp
  with ne hd show ?thesis by (simp add: path_Clean_def)
qed

lemma elements_append_slash: "elements (p @ CHR ''/'' # k) = elements p @ elements k"
  by (induction p) (auto split: list.splits simp: elements_not_Nil)

lemma clean_append: "clean p \<Longrightarrow> clean k \<Longrightarrow> clean (p @ ''/'' @ k)"
  by (simp add: clean_def elements_append_slash)

lemma clean_not_Nil: "clean p \<Longrightarrow> p \<noteq> []"
  by (auto simp: clean_def)

lemma KeyPrefix_clean:
  "clean (Prefix s3) \<Longrightarrow> clean key \<Longrightarrow> KeyPrefix s3 key = Prefix s3 @ ''/'' @ key"
  using path_Clean_clean [OF clean_append, of "Prefix s3" key]
  by (simp add: KeyPrefix_def path_Join_def clean_not_Nil)

lemma KeyPrefix_no_prefix: "Prefix s3 = [] \<Longrightarrow> clean key \<Longrightarrow> KeyPrefix s3 key = key"
  using path_Clean_clean [of key]
  by (simp add: KeyPrefix_def path_Join_def clean_not_Nil)

section \<open>The reference store satisfies the assumptions\<close>

lemma mem_reads_pure: "reads_pure mem_client"
  by (simp add: reads_pure_def mem_client_def mem_GetObject_def mem_StatObject_def
        mem_ListObjects_def split: option.splits prod.splits)

lemma mem_read_after_write: "read_after_write mem_client"
  by (auto simp: read_after_write_def mem_client_def mem_PutObject_def mem_GetObject_def
        mem_StatObject_def split: if_splits)

lemma mem_client_errors_generic: "client_errors_generic mem_client"
  by (simp add: client_errors_generic_def mem_client_def mem_GetObject_def unreachable_def
        NoSuchKey_def split: option.splits prod.splits)

lemma KeyPrefix_ssl_a: "KeyPrefix s3_ssl ''a'' = ''ssl/a''"
  by (simp add: KeyPrefix_def path_Join_def path_Clean_def s3_ssl_def)

lemma KeyPrefix_ssl_b: "KeyPrefix s3_ssl ''b'' = ''ssl/b''"
  by (simp add: KeyPrefix_def path_Join_def path_Clean_def s3_ssl_def)

lemma world_a_eq:
  "world_a = \<lparr>store = \<lparr>objects = [((''certs'', ''ssl/a''), [1, 2, 3], 0)], clock = 1,
                         offline = False\<rparr>,
              calls = [PutObjectCall ''certs'' ''ssl/a'' [1, 2, 3] 3]\<rparr>"
proof -
  have "Bucket s3_ssl = ''certs''" by (simp add: s3_ssl_def)
  then show ?thesis
    by (simp add: world_a_def Store_def client_PutObject_def mem_client_def mem_PutObject_def
          world_empty_def KeyPrefix_ssl_a Let_def)
qed

section \<open>What the operations return and which calls they issue\<close>

lemma Store_result:
  "fst (Store c s3 ctx key val w) =
     fst (PutObject c ctx (Bucket s3) (KeyPrefix s3 key) val (of_nat (length val)) (store w))"
  by (simp add: Store_def client_PutObject_def Let_def split: prod.splits)

lemma Delete_result:
  "fst (Delete c s3 ctx key w) =
     fst (RemoveObject c ctx (Bucket s3) (KeyPrefix s3 key) (store w))"
  by (simp add: Delete_def client_RemoveObject_def Let_def split: prod.splits)

lemma List_result_nil: "snd (fst (List c s3 ctx prefix recursive w)) = None"
  by (simp add: List_def Let_def split: prod.splits)

lemma Exists_world:
  "snd (Exists c s3 ctx key w) =
     \<lparr>store = snd (StatObject c ctx (Bucket s3) (KeyPrefix s3 key) (store w)),
      calls = calls w @ [StatObjectCall (Bucket s3) (KeyPrefix s3 key)]\<rparr>"
  by (simp add: Exists_def client_StatObject_def Let_def split: prod.splits)

lemma Exists_result:
  "fst (Exists c s3 ctx key w) =
     (snd (fst (StatObject c ctx (Bucket s3) (KeyPrefix s3 key) (store w))) = None)"
  by (simp add: Exists_def client_StatObject_def Let_def split: prod.splits)

lemma Stat_world:
  "snd (Stat c s3 ctx key w) =
     \<lparr>store = snd (StatObject c ctx (Bucket s3) (KeyPrefix s3 key) (store w)),
      calls = calls w @ [StatObjectCall (Bucket s3) (KeyPrefix s3 key)]\<rparr>"
  by (simp add: Stat_def client_StatObject_def Let_def split: prod.splits)

lemma List_world:
  "snd (List c s3 ctx prefix recursive w) =
     \<lparr>store = snd (ListObjects c ctx (Bucket s3) (KeyPrefix s3 prefix) recursive (store w)),
      calls = calls w @ [ListObjectsCall (Bucket s3) (KeyPrefix s3 prefix) recursive]\<rparr>"
  by (simp add: List_def client_ListObjects_def Let_def split: prod.splits)

lemma Store_world:
  "snd (Store c s3 ctx key val w) =
     \<lparr>store = snd (PutObject c ctx (Bucket s3) (KeyPrefix s3 key) val
                     (of_nat (length val)) (store w)),
      calls = calls w @ [PutObjectCall (Bucket s3) (KeyPrefix s3 key) val
                           (of_nat (length val))]\<rparr>"
  by (simp add: Store_def client_PutObject_def Let_def split: prod.splits)

lemma Delete_world:
  "snd (Delete c s3 ctx key w) =
     \<lparr>store = snd (RemoveObject c ctx (Bucket s3) (KeyPrefix s3 key) (store w)),
      calls = calls w @ [RemoveObjectCall (Bucket s3) (KeyPrefix s3 key)]\<rparr>"
  by (simp add: Delete_def client_RemoveObject_def Let_def split: prod.splits)

text \<open>\<^verbatim>\<open>Load\<close>, by the answer of its existence check.\<close>

lemma Load_absent:
  "\<not> fst (Exists c s3 ctx key w) \<Longrightarrow>
   Load c s3 ctx key w = (([], Some ErrNotExist), snd (Exists c s3 ctx key w))"
  by (cases "Exists c s3 ctx key w") (simp add: Load_def)

lemma Load_present:
  "fst (Exists c s3 ctx key w) \<Longrightarrow>
   Load c s3 ctx key w =
     (let w1 = snd (Exists c s3 ctx key w);
          r = GetObject c ctx (Bucket s3) (KeyPrefix s3 key) (store w1)
      in (case fst r of Inl err \<Rightarrow> ([], Some err) | Inr object \<Rightarrow> object,
          \<lparr>store = snd r,
           calls = calls w1 @ [GetObjectCall (Bucket s3) (KeyPrefix s3 key)]\<rparr>))"
  by (cases "Exists c s3 ctx key w")
    (simp add: Load_def client_GetObject_def io_ReadAll_def Let_def
       split: prod.splits sum.splits)

section \<open>An object outlives the operations on other names\<close>

lemma map_of_filter_other:
  "k \<noteq> k' \<Longrightarrow> map_of (filter (\<lambda>ob. fst ob \<noteq> k') xs) k = map_of xs k"
  by (induction xs) auto

lemma mem_writes_frame: "writes_frame mem_client"
  unfolding writes_frame_def object_is_def
  by (auto simp: mem_client_def mem_PutObject_def mem_RemoveObject_def mem_StatObject_def
        mem_GetObject_def map_of_filter_other split: if_splits option.splits)

lemma Load_store: "reads_pure c \<Longrightarrow> store (snd (Load c s3 ctx key w)) = store w"
  by (cases "fst (Exists c s3 ctx key w)")
    (simp_all add: Load_present Load_absent Exists_world Let_def reads_pure_def)

lemma apply_op_object_is:
  assumes "reads_pure c" and "writes_frame c"
    and "case written_key op of None \<Rightarrow> True | Some key' \<Rightarrow> KeyPrefix s3 key' \<noteq> name"
    and "object_is c (Bucket s3) name data (store w)"
  shows "object_is c (Bucket s3) name data (store (apply_op c s3 op w))"
proof (cases op)
  case (OpStore ctx key val)
  with assms(3) have "KeyPrefix s3 key \<noteq> name" by simp
  with assms(2,4) OpStore show ?thesis
    unfolding writes_frame_def by (simp add: Store_world)
next
  case (OpDelete ctx key)
  with assms(3) have "KeyPrefix s3 key \<noteq> name" by simp
  with assms(2,4) OpDelete show ?thesis
    unfolding writes_frame_def by (simp add: Delete_world)
next
  case (OpLoad ctx key)
  with assms(1,4) show ?thesis by (simp add: Load_store)
next
  case (OpExists ctx key)
  with assms(1,4) show ?thesis by (simp add: Exists_world reads_pure_def)
next
  case (OpList ctx prefix recursive)
  with assms(1,4) show ?thesis by (simp add: List_world reads_pure_def)
next
  case (OpStat ctx key)
  with assms(1,4) show ?thesis by (simp add: Stat_world reads_pure_def)
next
  case (OpLock ctx key)
  with assms(4) show ?thesis by (simp add: Lock_def)
next
  case (OpUnlock ctx key)
  with assms(4) show ?thesis by (simp add: Unlock_def)
qed

lemma apply_ops_object_is:
  assumes "reads_pure c" and "writes_frame c"
  shows "undisturbed s3 key ops \<Longrightarrow>
         object_is c (Bucket s3) (KeyPrefix s3 key) data (store w) \<Longrightarrow>
         object_is c (Bucket s3) (KeyPrefix s3 key) data (store (apply_ops c s3 ops w))"
proof (induction ops arbitrary: w)
  case Nil
  then show ?case by simp
next
  case (Cons op ops)
  from Cons.prems have "undisturbed s3 key ops"
    and "case written_key op of None \<Rightarrow> True
         | Some key' \<Rightarrow> KeyPrefix s3 key' \<noteq> KeyPrefix s3 key"
    by (simp_all add: undisturbed_def)
  with Cons.IH apply_op_object_is [OF assms _ Cons.prems(2)] show ?case by simp
qed

lemma Load_of_object_is:
  assumes "reads_pure c" and "object_is c (Bucket s3) (KeyPrefix s3 key) data (store w)"
  shows "fst (Load c s3 ctx key w) = (data, None)"
proof -
  from assms(2) have ex: "fst (Exists c s3 ctx key w)"
    by (simp add: Exists_result object_is_def)
  have "store (snd (Exists c s3 ctx key w)) = store w"
    using assms(1) by (simp add: Exists_world reads_pure_def)
  with assms(2) show ?thesis
    by (simp add: Load_present [OF ex] Let_def object_is_def)
qed

lemma Store_object_is:
  assumes "read_after_write c" and "Store c s3 ctx key val w = (None, w')"
  shows "object_is c (Bucket s3) (KeyPrefix s3 key) val (store w')"
proof -
  let ?put = "PutObject c ctx (Bucket s3) (KeyPrefix s3 key) val (of_nat (length val)) (store w)"
  have "fst ?put = None"
    using assms(2) Store_result [of c s3 ctx key val w] by simp
  moreover have "snd ?put = store w'"
    using assms(2) Store_world [of c s3 ctx key val w] by simp
  ultimately have "?put = (None, store w')"
    by (simp add: prod_eq_iff)
  with assms(1) show ?thesis
    unfolding read_after_write_def object_is_def by blast
qed

lemma KeyPrefix_inj_clean:
  assumes "Prefix s3 = [] \<or> clean (Prefix s3)" and "clean k" and "clean k'"
    and "KeyPrefix s3 k = KeyPrefix s3 k'"
  shows "k = k'"
proof (cases "Prefix s3 = []")
  case True
  with assms show ?thesis by (simp add: KeyPrefix_no_prefix)
next
  case False
  with assms have "clean (Prefix s3)" by simp
  with assms show ?thesis by (simp add: KeyPrefix_clean)
qed

lemma clean_others_undisturbed:
  assumes "Prefix s3 = [] \<or> clean (Prefix s3)" and "clean key"
  shows "clean_others key ops \<Longrightarrow> undisturbed s3 key ops"
  unfolding clean_others_def undisturbed_def list_all_iff
  using KeyPrefix_inj_clean [OF assms(1) _ assms(2)]
  by (auto split: option.splits)

section \<open>The claims\<close>

text \<open>
  C1, as the claim states it, fails. Its only condition is that no \<^verbatim>\<open>Delete\<close> of the
  key intervenes, but \<^verbatim>\<open>path.Join\<close> gives the keys \<^verbatim>\<open>a//b\<close> and \<^verbatim>\<open>a/b\<close> the
  same object: after a successful \<^verbatim>\<open>Store\<close> of \<^verbatim>\<open>a//b\<close>, a \<^verbatim>\<open>Delete\<close> of the
  other key \<^verbatim>\<open>a/b\<close> makes \<^verbatim>\<open>Load\<close> of \<^verbatim>\<open>a//b\<close> report not-found, and a
  \<^verbatim>\<open>Store\<close> of \<^verbatim>\<open>a/b\<close> makes it return the other bytes.
\<close>

theorem Load_after_write_to_colliding_key:
  "fst (Store mem_client s3_ssl () ''a//b'' [1] world_empty) = None
   \<and> ''a/b'' \<noteq> ''a//b''
   \<and> fst (Load mem_client s3_ssl () ''a//b''
            (apply_ops mem_client s3_ssl [OpDelete () ''a/b'']
               (snd (Store mem_client s3_ssl () ''a//b'' [1] world_empty))))
       = ([], Some ErrNotExist)
   \<and> fst (Load mem_client s3_ssl () ''a//b''
            (apply_ops mem_client s3_ssl [OpStore () ''a/b'' [2]]
               (snd (Store mem_client s3_ssl () ''a//b'' [1] world_empty))))
       = ([2], None)"
proof -
  have s3: "Bucket s3_ssl = ''certs''" by (simp add: s3_ssl_def)
  have k1: "KeyPrefix s3_ssl ''a//b'' = ''ssl/a/b''"
    by (simp add: KeyPrefix_def path_Join_def path_Clean_def s3_ssl_def)
  have k2: "KeyPrefix s3_ssl ''a/b'' = ''ssl/a/b''"
    by (simp add: KeyPrefix_def path_Join_def path_Clean_def s3_ssl_def)
  have st: "fst (Store mem_client s3_ssl () ''a//b'' [1] world_empty) = None"
    by (simp add: Store_result k1 mem_client_def mem_PutObject_def world_empty_def)
  have w1: "snd (Store mem_client s3_ssl () ''a//b'' [1] world_empty)
            = \<lparr>store = \<lparr>objects = [((''certs'', ''ssl/a/b''), [1], 0)], clock = 1,
                         offline = False\<rparr>,
               calls = [PutObjectCall ''certs'' ''ssl/a/b'' [1] 1]\<rparr>"
    by (simp add: Store_world k1 s3 mem_client_def mem_PutObject_def world_empty_def)
  let ?w1 = "snd (Store mem_client s3_ssl () ''a//b'' [1] world_empty)"
  let ?wd = "apply_ops mem_client s3_ssl [OpDelete () ''a/b''] ?w1"
  let ?ws = "apply_ops mem_client s3_ssl [OpStore () ''a/b'' [2]] ?w1"
  have wd: "store ?wd = \<lparr>objects = [], clock = 1, offline = False\<rparr>"
    by (simp only: w1) (simp add: Delete_world k2 s3 mem_client_def mem_RemoveObject_def)
  have ws: "store ?ws
            = \<lparr>objects = [((''certs'', ''ssl/a/b''), [2], 1)], clock = 2, offline = False\<rparr>"
    by (simp only: w1) (simp add: Store_world k2 s3 mem_client_def mem_PutObject_def)
  have nex: "\<not> fst (Exists mem_client s3_ssl () ''a//b'' ?wd)"
    by (simp only: Exists_result wd k1 s3) (simp add: mem_client_def mem_StatObject_def)
  have ex: "fst (Exists mem_client s3_ssl () ''a//b'' ?ws)"
    by (simp only: Exists_result ws k1 s3) (simp add: mem_client_def mem_StatObject_def)
  have del: "fst (Load mem_client s3_ssl () ''a//b'' ?wd) = ([], Some ErrNotExist)"
    by (simp only: Load_absent [OF nex] fst_conv)
  have "store (snd (Exists mem_client s3_ssl () ''a//b'' ?ws)) = store ?ws"
    by (simp only: Exists_world ws k1 s3) (simp add: mem_client_def mem_StatObject_def)
  then have sto: "fst (Load mem_client s3_ssl () ''a//b'' ?ws) = ([2], None)"
    by (simp only: Load_present [OF ex] Let_def fst_conv ws k1 s3)
      (simp add: mem_client_def mem_GetObject_def)
  from st del sto show ?thesis by simp
qed

text \<open>
  C1, amended. For every key and every byte sequence, if \<^verbatim>\<open>Store\<close> of the key and the
  bytes succeeds and no \<^verbatim>\<open>Store\<close> or \<^verbatim>\<open>Delete\<close> of a key with the same prefixed
  key intervenes, then a \<^verbatim>\<open>Load\<close> of the key after any run of other operations
  returns exactly these bytes and no error. With a configured prefix that is empty or
  clean, a clean key, and only clean keys stored or deleted in between, the condition is
  that no \<^verbatim>\<open>Store\<close> or \<^verbatim>\<open>Delete\<close> of the key itself intervenes. The object store is
  any client whose reading calls leave the store as it is, that can read back what it has
  written, and in which writing or removing one name leaves the objects of other names
  as they are.
\<close>

theorem Store_Load_roundtrip_undisturbed:
  assumes "reads_pure c" and "read_after_write c" and "writes_frame c"
    and "Store c s3 ctx key val w = (None, w')"
  shows "(undisturbed s3 key ops \<longrightarrow>
            fst (Load c s3 ctx' key (apply_ops c s3 ops w')) = (val, None))
         \<and> ((Prefix s3 = [] \<or> clean (Prefix s3)) \<and> clean key \<and> clean_others key ops \<longrightarrow>
              fst (Load c s3 ctx' key (apply_ops c s3 ops w')) = (val, None))"
proof -
  have obj: "object_is c (Bucket s3) (KeyPrefix s3 key) val (store w')"
    using assms(2,4) by (rule Store_object_is)
  have main: "fst (Load c s3 ctx' key (apply_ops c s3 ops w')) = (val, None)"
    if "undisturbed s3 key ops"
    using Load_of_object_is [OF assms(1) apply_ops_object_is [OF assms(1,3) that obj]] .
  then show ?thesis
    using clean_others_undisturbed [of s3 key ops] by blast
qed

theorem Store_Load_roundtrip_undisturbed_witness:
  "Store mem_client s3_ssl () ''a'' [1, 2, 3] world_empty = (None, world_a)
   \<and> clean (Prefix s3_ssl) \<and> clean ''a'' \<and> clean_others ''a'' run_others
   \<and> undisturbed s3_ssl ''a'' run_others
   \<and> fst (Load mem_client s3_ssl () ''a'' (apply_ops mem_client s3_ssl run_others world_a))
       = ([1, 2, 3], None)"
proof -
  have "fst (Store mem_client s3_ssl () ''a'' [1, 2, 3] world_empty) = None"
    by (simp add: Store_result KeyPrefix_ssl_a mem_client_def mem_PutObject_def
          world_empty_def)
  then have st: "Store mem_client s3_ssl () ''a'' [1, 2, 3] world_empty = (None, world_a)"
    by (simp add: prod_eq_iff world_a_def)
  have p: "clean (Prefix s3_ssl)" by (simp add: clean_def s3_ssl_def)
  have k: "clean ''a''" by (simp add: clean_def)
  have others: "clean_others ''a'' run_others"
    by (simp add: clean_others_def run_others_def clean_def)
  have und: "undisturbed s3_ssl ''a'' run_others"
    using clean_others_undisturbed [OF disjI2 [OF p] k others] .
  from Store_Load_roundtrip_undisturbed
         [OF mem_reads_pure mem_read_after_write mem_writes_frame st,
          of run_others "()"]
    st p k others und
  show ?thesis by simp
qed

text \<open>
  C2. For every context and key, \<^verbatim>\<open>Lock\<close> and \<^verbatim>\<open>Unlock\<close> return \<^verbatim>\<open>nil\<close> and
  leave the world as it is: the object store is untouched and no call is added to the
  log of client calls. Neither takes the client, so there is no call on which it could
  wait.
\<close>

theorem Lock_Unlock_no_op:
  "Lock s3 ctx key w = (None, w) \<and> Unlock s3 ctx key w = (None, w)"
  by (simp add: Lock_def Unlock_def)

text \<open>
  C3. \<^verbatim>\<open>Store\<close> and \<^verbatim>\<open>Delete\<close> return the error of their client call unchanged
  (lemmas \<open>Store_result\<close> and \<open>Delete_result\<close>). \<^verbatim>\<open>List\<close> does not: when the store
  cannot be reached, the listing delivers one entry that carries the error, and
  \<^verbatim>\<open>List\<close> returns the empty key made from that entry together with \<^verbatim>\<open>nil\<close>.
\<close>

theorem List_hides_listing_error:
  "fst (ListObjects mem_client () (Bucket s3_ssl) (KeyPrefix s3_ssl []) True
          (store world_offline))
     = (0, [ObjectInfo_zero\<lparr>oi_Err := Some (ClientError ''connection refused'')\<rparr>])
   \<and> fst (List mem_client s3_ssl () [] True world_offline) = ([[]], None)"
  by (simp add: List_def client_ListObjects_def mem_client_def mem_ListObjects_def
        world_offline_def unreachable_def ObjectInfo_zero_def CutKeyPrefix_def
        strings_CutPrefix_def strings_HasPrefix_def Let_def)




text \<open>
  C5. For every key, whenever the metadata fetch on the prefixed key fails, with whatever
  error, \<^verbatim>\<open>Stat\<close> returns the empty \<^verbatim>\<open>KeyInfo\<close> together with \<^verbatim>\<open>nil\<close>.
\<close>

theorem Stat_error_swallowed:
  assumes "snd (fst (StatObject c ctx (Bucket s3) (KeyPrefix s3 key) (store w))) = Some err"
  shows "fst (Stat c s3 ctx key w) = (KeyInfo_zero, None)"
  using assms
  by (cases "StatObject c ctx (Bucket s3) (KeyPrefix s3 key) (store w)")
    (auto simp: Stat_def client_StatObject_def Let_def)

theorem Stat_error_swallowed_witness:
  "snd (fst (StatObject mem_client () (Bucket s3_ssl) (KeyPrefix s3_ssl ''b'') (store world_a)))
     = Some (ClientError ''The specified key does not exist.'')
   \<and> fst (Stat mem_client s3_ssl () ''b'' world_a)
     = (\<lparr>ki_Key = [], ki_Modified = 0, ki_Size = 0, ki_IsTerminal = False\<rparr>, None)"
proof -
  have "snd (fst (StatObject mem_client () (Bucket s3_ssl) (KeyPrefix s3_ssl ''b'')
                    (store world_a)))
        = Some (ClientError ''The specified key does not exist.'')"
    by (simp add: KeyPrefix_ssl_b world_a_eq mem_client_def mem_StatObject_def NoSuchKey_def)
  from this Stat_error_swallowed [OF this] show ?thesis
    by (simp add: KeyInfo_zero_def)
qed

text \<open>
  C6. For every key, \<^verbatim>\<open>Exists\<close> returns true if and only if the metadata call on the
  prefixed key returns no error; any error at all gives false.
\<close>

theorem Exists_iff_stat_succeeds:
  "fst (Exists c s3 ctx key w) =
     (snd (fst (StatObject c ctx (Bucket s3) (KeyPrefix s3 key) (store w))) = None)"
  by (rule Exists_result)

text \<open>
  C7. For every key, \<^verbatim>\<open>Load\<close> returns no bytes and the not-found error when its
  existence check reports the object absent. When the check reports it present,
  \<^verbatim>\<open>Load\<close> fetches the object under the prefixed key: an error of \<^verbatim>\<open>GetObject\<close>
  is returned as it is, and otherwise the result is what reading the object to its end
  yields, the bytes and the error that ended the stream. As the client never produces the
  not-found sentinel, \<^verbatim>\<open>Load\<close> returns it exactly when the check reports absence.
\<close>

theorem Load_not_found_or_content:
  assumes "client_errors_generic c"
  shows "(\<not> fst (Exists c s3 ctx key w) \<longrightarrow>
            fst (Load c s3 ctx key w) = ([], Some ErrNotExist))
         \<and> (fst (Exists c s3 ctx key w) \<longrightarrow>
              (case fst (GetObject c ctx (Bucket s3) (KeyPrefix s3 key)
                           (store (snd (Exists c s3 ctx key w)))) of
                 Inl err \<Rightarrow> fst (Load c s3 ctx key w) = ([], Some err) \<and> err \<noteq> ErrNotExist
               | Inr (data, rerr) \<Rightarrow>
                   fst (Load c s3 ctx key w) = (data, rerr) \<and> rerr \<noteq> Some ErrNotExist))
         \<and> ((snd (fst (Load c s3 ctx key w)) = Some ErrNotExist)
              = (\<not> fst (Exists c s3 ctx key w)))"
proof (cases "fst (Exists c s3 ctx key w)")
  case False
  then show ?thesis by (simp add: Load_absent)
next
  case True
  let ?r = "fst (GetObject c ctx (Bucket s3) (KeyPrefix s3 key)
                   (store (snd (Exists c s3 ctx key w))))"
  from assms have gen: "case ?r of Inl err \<Rightarrow> err \<noteq> ErrNotExist
                        | Inr (data, rerr) \<Rightarrow> rerr \<noteq> Some ErrNotExist"
    unfolding client_errors_generic_def by blast
  show ?thesis
  proof (cases ?r)
    case (Inl err)
    with gen True show ?thesis by (simp add: Load_present Let_def)
  next
    case (Inr object)
    with gen True show ?thesis
      by (cases object) (simp add: Load_present Let_def)
  qed
qed

theorem Load_not_found_or_content_witness:
  "\<not> fst (Exists mem_client s3_ssl () ''b'' world_a)
   \<and> fst (Load mem_client s3_ssl () ''b'' world_a) = ([], Some ErrNotExist)
   \<and> fst (Exists mem_client s3_ssl () ''a'' world_a)
   \<and> fst (Load mem_client s3_ssl () ''a'' world_a) = ([1, 2, 3], None)"
proof -
  have bucket: "Bucket s3_ssl = ''certs''" by (simp add: s3_ssl_def)
  have b: "\<not> fst (Exists mem_client s3_ssl () ''b'' world_a)"
    by (simp add: Exists_result KeyPrefix_ssl_b world_a_eq mem_client_def mem_StatObject_def
          bucket)
  have a: "fst (Exists mem_client s3_ssl () ''a'' world_a)"
    by (simp add: Exists_result KeyPrefix_ssl_a world_a_eq mem_client_def mem_StatObject_def
          bucket)
  have get: "fst (GetObject mem_client () (Bucket s3_ssl) (KeyPrefix s3_ssl ''a'')
                    (store (snd (Exists mem_client s3_ssl () ''a'' world_a))))
             = Inr ([1, 2, 3], None)"
    by (simp add: Exists_world KeyPrefix_ssl_a world_a_eq mem_client_def mem_StatObject_def
          mem_GetObject_def bucket)
  from Load_not_found_or_content [OF mem_client_errors_generic, of s3_ssl "()" "''b''" world_a]
    Load_not_found_or_content [OF mem_client_errors_generic, of s3_ssl "()" "''a''" world_a]
    a b get
  show ?thesis by simp
qed

text \<open>
  C8, as the claim states it, fails. Without a configured prefix the key \<^verbatim>\<open>a\<close> is
  stored under the object name \<^verbatim>\<open>a\<close>, not \<^verbatim>\<open>/a\<close>; and with the prefix
  \<^verbatim>\<open>ssl\<close> the key \<^verbatim>\<open>a/./b\<close> is addressed as \<^verbatim>\<open>ssl/a/b\<close>.
\<close>

theorem physical_key_not_concatenation:
  "calls (snd (Store mem_client s3_bare () ''a'' [] world_empty))
     = [PutObjectCall ''certs'' ''a'' [] 0]
   \<and> Prefix s3_bare @ ''/'' @ ''a'' = ''/a''
   \<and> KeyPrefix s3_ssl ''a/./b'' = ''ssl/a/b''
   \<and> Prefix s3_ssl @ ''/'' @ ''a/./b'' = ''ssl/a/./b''"
  by (simp add: Store_world KeyPrefix_def path_Join_def path_Clean_def s3_bare_def s3_ssl_def
        world_empty_def)

text \<open>
  C8, amended. For every configured prefix \<open>p\<close> and every logical key \<open>k\<close>, the physical
  object key used by \<^verbatim>\<open>Store\<close>, \<^verbatim>\<open>Load\<close>, \<^verbatim>\<open>Delete\<close>, \<^verbatim>\<open>Exists\<close> and
  \<^verbatim>\<open>Stat\<close> is \<^verbatim>\<open>path.Join(p, k)\<close>; it equals the string \<open>p\<close>, a slash, \<open>k\<close>
  whenever \<open>p\<close> and \<open>k\<close> are clean paths. Each operation issues its client calls in the
  configured bucket under that name: \<^verbatim>\<open>Store\<close> one \<^verbatim>\<open>PutObject\<close>, \<^verbatim>\<open>Delete\<close>
  one \<^verbatim>\<open>RemoveObject\<close>, \<^verbatim>\<open>Exists\<close> and \<^verbatim>\<open>Stat\<close> one \<^verbatim>\<open>StatObject\<close>, and
  \<^verbatim>\<open>Load\<close> a \<^verbatim>\<open>StatObject\<close> followed, when the object exists, by a
  \<^verbatim>\<open>GetObject\<close>.
\<close>

theorem physical_key_is_path_Join:
  "calls (snd (Store c s3 ctx key val w))
     = calls w @ [PutObjectCall (Bucket s3) (path_Join [Prefix s3, key]) val
                    (of_nat (length val))]
   \<and> calls (snd (Delete c s3 ctx key w))
     = calls w @ [RemoveObjectCall (Bucket s3) (path_Join [Prefix s3, key])]
   \<and> calls (snd (Exists c s3 ctx key w))
     = calls w @ [StatObjectCall (Bucket s3) (path_Join [Prefix s3, key])]
   \<and> calls (snd (Stat c s3 ctx key w))
     = calls w @ [StatObjectCall (Bucket s3) (path_Join [Prefix s3, key])]
   \<and> calls (snd (Load c s3 ctx key w))
     = calls w @ StatObjectCall (Bucket s3) (path_Join [Prefix s3, key])
         # (if fst (Exists c s3 ctx key w)
            then [GetObjectCall (Bucket s3) (path_Join [Prefix s3, key])] else [])
   \<and> (clean (Prefix s3) \<and> clean key \<longrightarrow>
        path_Join [Prefix s3, key] = Prefix s3 @ ''/'' @ key)"
proof -
  have k: "KeyPrefix s3 key = path_Join [Prefix s3, key]"
    by (simp add: KeyPrefix_def)
  have "calls (snd (Load c s3 ctx key w))
          = calls w @ StatObjectCall (Bucket s3) (KeyPrefix s3 key)
              # (if fst (Exists c s3 ctx key w)
                 then [GetObjectCall (Bucket s3) (KeyPrefix s3 key)] else [])"
    by (cases "fst (Exists c s3 ctx key w)")
      (simp_all add: Load_present Load_absent Exists_world Let_def)
  moreover have "clean (Prefix s3) \<and> clean key \<longrightarrow>
                 path_Join [Prefix s3, key] = Prefix s3 @ ''/'' @ key"
    using KeyPrefix_clean [of s3 key] by (simp add: k)
  ultimately show ?thesis
    using Store_world [of c s3 ctx key val w] Delete_world [of c s3 ctx key w]
      Exists_world [of c s3 ctx key w] Stat_world [of c s3 ctx key w]
    by (simp add: k)
qed

theorem physical_key_is_path_Join_witness:
  "clean (Prefix s3_ssl) \<and> clean ''example.com/cert.pem''
   \<and> path_Join [Prefix s3_ssl, ''example.com/cert.pem''] = ''ssl/example.com/cert.pem''
   \<and> calls (snd (Store mem_client s3_ssl () ''example.com/cert.pem'' [7] world_empty))
       = [PutObjectCall ''certs'' ''ssl/example.com/cert.pem'' [7] 1]
   \<and> calls (snd (Load mem_client s3_ssl () ''example.com/cert.pem'' world_empty))
       = [StatObjectCall ''certs'' ''ssl/example.com/cert.pem'']
   \<and> calls (snd (Delete mem_client s3_bare () ''a//b'' world_empty))
       = [RemoveObjectCall ''certs'' ''a/b'']"
proof -
  have p: "clean (Prefix s3_ssl)" by (simp add: clean_def s3_ssl_def)
  have k: "clean ''example.com/cert.pem''" by (simp add: clean_def)
  have s3: "Bucket s3_ssl = ''certs''" "Prefix s3_ssl = ''ssl''" by (simp_all add: s3_ssl_def)
  have bare: "Bucket s3_bare = ''certs''" "Prefix s3_bare = []"
    by (simp_all add: s3_bare_def s3_ssl_def)
  have j: "path_Join [[], ''a//b''] = ''a/b''"
    by (simp add: path_Join_def path_Clean_def)
  have kp: "KeyPrefix s3_ssl ''example.com/cert.pem'' = ''ssl/example.com/cert.pem''"
    using KeyPrefix_clean [OF p k] by (simp add: s3)
  have ex: "\<not> fst (Exists mem_client s3_ssl () ''example.com/cert.pem'' world_empty)"
    by (simp add: Exists_result kp world_empty_def mem_client_def mem_StatObject_def)
  from physical_key_is_path_Join [of mem_client s3_ssl "()" "''example.com/cert.pem''"
         "[7]" world_empty]
    physical_key_is_path_Join [of mem_client s3_bare "()" "''a//b''" "[]" world_empty]
    p k ex j
  show ?thesis by (simp add: s3 bare world_empty_def)
qed

text \<open>
  C9. \<^verbatim>\<open>List\<close> passes every listed name through \<^verbatim>\<open>CutKeyPrefix\<close>, which takes
  the configured prefix off but not the slash that \<^verbatim>\<open>KeyPrefix\<close> put after it, and
  \<^verbatim>\<open>Stat\<close> reports the object's name as the client returns it. After the key
  \<^verbatim>\<open>a\<close> has been stored with the prefix \<^verbatim>\<open>ssl\<close>, \<^verbatim>\<open>Stat\<close> of \<^verbatim>\<open>a\<close> reports the
  key \<^verbatim>\<open>ssl/a\<close>, and the recursive listing returns \<^verbatim>\<open>/a\<close>.
\<close>

theorem Stat_and_List_keys_not_logical:
  "ki_Key (fst (fst (Stat mem_client s3_ssl () ''a'' world_a))) = ''ssl/a''
   \<and> fst (fst (List mem_client s3_ssl () [] True world_a)) = [''/a'']"
proof -
  have s3: "Bucket s3_ssl = ''certs''" "Prefix s3_ssl = ''ssl''" by (simp_all add: s3_ssl_def)
  have kp: "KeyPrefix s3_ssl [] = ''ssl''"
    by (simp add: KeyPrefix_def path_Join_def path_Clean_def s3)
  have "ki_Key (fst (fst (Stat mem_client s3_ssl () ''a'' world_a))) = ''ssl/a''"
    by (simp add: Stat_def client_StatObject_def KeyPrefix_ssl_a world_a_eq mem_client_def
          mem_StatObject_def s3 Let_def)
  moreover have "fst (fst (List mem_client s3_ssl () [] True world_a)) = [''/a'']"
    by (simp add: List_def client_ListObjects_def kp world_a_eq mem_client_def
          mem_ListObjects_def mem_entry_def strings_HasPrefix_def CutKeyPrefix_def
          strings_CutPrefix_def s3 Let_def)
  ultimately show ?thesis by simp
qed

text \<open>
  C10. For every key and every state of the object store, \<^verbatim>\<open>Load\<close>, \<^verbatim>\<open>Exists\<close>,
  \<^verbatim>\<open>List\<close> and \<^verbatim>\<open>Stat\<close> issue reading calls only, never \<^verbatim>\<open>PutObject\<close> or
  \<^verbatim>\<open>RemoveObject\<close>; with a client whose reading calls leave the store as it is, the
  store after each of the four operations is the store before it.
\<close>

theorem reads_leave_store_unchanged:
  assumes "reads_pure c"
  shows "store (snd (Load c s3 ctx key w)) = store w
         \<and> store (snd (Exists c s3 ctx key w)) = store w
         \<and> store (snd (List c s3 ctx key recursive w)) = store w
         \<and> store (snd (Stat c s3 ctx key w)) = store w
         \<and> list_all is_read (drop (length (calls w)) (calls (snd (Load c s3 ctx key w))))
         \<and> list_all is_read (drop (length (calls w)) (calls (snd (Exists c s3 ctx key w))))
         \<and> list_all is_read
             (drop (length (calls w)) (calls (snd (List c s3 ctx key recursive w))))
         \<and> list_all is_read (drop (length (calls w)) (calls (snd (Stat c s3 ctx key w))))"
proof -
  from assms have pure:
    "\<And>ctx bucket name s. snd (GetObject c ctx bucket name s) = s"
    "\<And>ctx bucket name s. snd (StatObject c ctx bucket name s) = s"
    "\<And>ctx bucket name recursive s. snd (ListObjects c ctx bucket name recursive s) = s"
    unfolding reads_pure_def by blast+
  have load: "store (snd (Load c s3 ctx key w)) = store w
              \<and> list_all is_read (drop (length (calls w)) (calls (snd (Load c s3 ctx key w))))"
    by (cases "fst (Exists c s3 ctx key w)")
      (simp_all add: Load_present Load_absent Exists_world Let_def pure is_read_def)
  then show ?thesis
    by (simp add: Exists_world List_world Stat_world pure is_read_def)
qed

theorem reads_leave_store_unchanged_witness:
  "store (snd (Load mem_client s3_ssl () ''a'' world_a)) = store world_a
   \<and> store (snd (Exists mem_client s3_ssl () ''a'' world_a)) = store world_a
   \<and> store (snd (List mem_client s3_ssl () ''a'' False world_a)) = store world_a
   \<and> store (snd (Stat mem_client s3_ssl () ''a'' world_a)) = store world_a
   \<and> objects (store world_a) = [((''certs'', ''ssl/a''), [1, 2, 3], 0)]"
  using reads_leave_store_unchanged [OF mem_reads_pure, of s3_ssl "()" "''a''" world_a False]
  by (simp add: world_a_eq)

end
